theory Spec2Isabelle
  imports Main "HOL-Library.Word"
begin

section \<open>The event dispatcher of gpyconf (gpyconf/events.py)\<close>

text \<open>
  \<open>register_event\<close> writes the entry \<open>'lazy'\<close> of \<open>callback.__dict__\<close>, so what a callback
  shares with other callbacks matters. A callback is a function, or a bound method of an
  instance; the \<open>__dict__\<close> of a bound method is the \<open>__dict__\<close> of its function, one and
  the same for every bound method of that function. \<open>func_of\<close> gives the function whose
  \<open>__dict__\<close> a callback uses, and the store \<open>lazy_attr\<close> holds the \<open>'lazy'\<close> entry of every
  function's \<open>__dict__\<close> (\<open>None\<close>: the entry is absent).

  The bodies of the callbacks are not part of the dispatcher. An invocation is recorded in
  \<open>calls\<close>, the log of all invocations with their positional arguments, and is taken to return
  normally without touching the dispatcher. Keyword arguments are passed through unchanged
  by the source everywhere and are left out.
\<close>

type_synonym func = nat

datatype callback = Function func | BoundMethod nat func

fun func_of :: "callback \<Rightarrow> func" where
  "func_of (Function f) = f"
| "func_of (BoundMethod obj f) = f"

datatype pyval = PyStr string | PyInt int | PyObj nat | PyFunc callback

datatype error =
    InvalidEvent string
  | TypeError
  | KeyError string
  | AttributeError string

datatype call = Call (callee: callback) (arguments: "pyval list")

text \<open>What \<open>lazy_callbacks\<close> may hold: a callback, or a \<open>functools.partial\<close> object.\<close>

datatype callable = Callback callback | Partial callback "pyval list"

text \<open>
  The class \<open>EventRegister\<close>. \<open>dunder_events\<close> is the attribute \<open>__events__\<close>; the source
  reads it only behind \<open>self.strict and ...\<close>, that is only when it exists.
  \<open>events\<close> is the \<open>defaultdict(list)\<close>.
\<close>

record EventRegister =
  strict :: bool
  dunder_events :: "string list"
  events :: "string \<rightharpoonup> callback list"
  all_events_listener :: "callback list"

record state =
  lazy_attr :: "func \<rightharpoonup> bool"
  reg :: EventRegister
  calls :: "call list"

text \<open>
  \<open>EventRegister.__init__\<close>: the argument is the \<open>__events__\<close> declared by the class, if any
  (\<open>hasattr(self, '__events__')\<close>).
\<close>

definition EventRegister_init :: "string list option \<Rightarrow> EventRegister" where
  "EventRegister_init decl =
     (case decl of
        Some es \<Rightarrow> \<lparr>strict = True, dunder_events = es,
                    events = Map.empty, all_events_listener = []\<rparr>
      | None \<Rightarrow> \<lparr>strict = False, dunder_events = [],
                 events = Map.empty, all_events_listener = []\<rparr>)"

text \<open>
  \<open>d[k]\<close> on a \<open>defaultdict(list)\<close>: a missing key is inserted with a fresh empty list.
\<close>

definition defaultdict_getitem ::
  "string \<Rightarrow> (string \<rightharpoonup> callback list)
     \<Rightarrow> callback list \<times> (string \<rightharpoonup> callback list)" where
  "defaultdict_getitem k d =
     (case d k of Some v \<Rightarrow> (v, d) | None \<Rightarrow> ([], d(k \<mapsto> [])))"

text \<open>
  \<open>EventRegister.register_event(event, callback, lazy)\<close>, statement by statement. The first
  statement, \<open>callback.__dict__['lazy'] = lazy\<close>, writes to the \<open>__dict__\<close> of \<open>func_of callback\<close>.
\<close>

definition register_event ::
  "string \<Rightarrow> callback \<Rightarrow> bool \<Rightarrow> state \<Rightarrow> error option \<times> state" where
  "register_event event callback lazy st =
     (let st1 = st\<lparr>lazy_attr := (lazy_attr st)(func_of callback \<mapsto> lazy)\<rparr>;
          r = reg st1
      in if event = ''all'' then
           (None, st1\<lparr>reg := r\<lparr>all_events_listener := all_events_listener r @ [callback]\<rparr>\<rparr>)
         else if strict r \<and> event \<notin> set (dunder_events r) then
           (Some (InvalidEvent event), st1)
         else
           (let (fs, d) = defaultdict_getitem event (events r)
            in (None, st1\<lparr>reg := r\<lparr>events := d(event \<mapsto> fs @ [callback])\<rparr>\<rparr>)))"

text \<open>
  \<open>functools.partial(f, *args)\<close> raises \<open>TypeError\<close> unless its first argument is callable;
  of the values of the model only callbacks are.
\<close>

fun functools_partial :: "pyval \<Rightarrow> pyval list \<Rightarrow> error + callable" where
  "functools_partial (PyFunc f) as = Inr (Partial f as)"
| "functools_partial v as = Inl TypeError"

fun call_callable :: "callable \<Rightarrow> pyval list \<Rightarrow> state \<Rightarrow> state" where
  "call_callable (Callback f) args st = st\<lparr>calls := calls st @ [Call f args]\<rparr>"
| "call_callable (Partial f pre) args st = st\<lparr>calls := calls st @ [Call f (pre @ args)]\<rparr>"

text \<open>
  The three loops of \<open>EventRegister.emit\<close>. The first reads \<open>func.__dict__['lazy']\<close>
  (\<open>KeyError\<close> when absent), the second \<open>func.lazy\<close> (\<open>AttributeError\<close> when absent) and
  builds \<open>partial(event, func)\<close>, the event name first, exactly as the source has it.
  Both reads go to the \<open>__dict__\<close> of \<open>func_of func\<close>.
\<close>

fun emit_event_loop ::
  "pyval list \<Rightarrow> callback list \<Rightarrow> callable list \<Rightarrow> state
     \<Rightarrow> error option \<times> callable list \<times> state" where
  "emit_event_loop args [] lazy_callbacks st = (None, lazy_callbacks, st)"
| "emit_event_loop args (f # fs) lazy_callbacks st =
     (case lazy_attr st (func_of f) of
        None \<Rightarrow> (Some (KeyError ''lazy''), lazy_callbacks, st)
      | Some lz \<Rightarrow>
          if lz then emit_event_loop args fs (lazy_callbacks @ [Callback f]) st
          else emit_event_loop args fs lazy_callbacks (call_callable (Callback f) args st))"

fun emit_all_loop ::
  "string \<Rightarrow> pyval list \<Rightarrow> callback list \<Rightarrow> callable list \<Rightarrow> state
     \<Rightarrow> error option \<times> callable list \<times> state" where
  "emit_all_loop event args [] lazy_callbacks st = (None, lazy_callbacks, st)"
| "emit_all_loop event args (f # fs) lazy_callbacks st =
     (case lazy_attr st (func_of f) of
        None \<Rightarrow> (Some (AttributeError ''lazy''), lazy_callbacks, st)
      | Some lz \<Rightarrow>
          if lz then
            (case functools_partial (PyStr event) [PyFunc f] of
               Inl e \<Rightarrow> (Some e, lazy_callbacks, st)
             | Inr p \<Rightarrow> emit_all_loop event args fs (lazy_callbacks @ [p]) st)
          else
            emit_all_loop event args fs lazy_callbacks
              (call_callable (Callback f) (PyStr event # args) st))"

fun emit_lazy_loop :: "pyval list \<Rightarrow> callable list \<Rightarrow> state \<Rightarrow> state" where
  "emit_lazy_loop args [] st = st"
| "emit_lazy_loop args (c # cs) st = emit_lazy_loop args cs (call_callable c args st)"

text \<open>
  \<open>EventRegister.emit(event, *args)\<close>. \<open>self.events[event]\<close> is the \<open>defaultdict\<close> read,
  guarded by \<open>event in self.events\<close>.
\<close>

definition emit :: "string \<Rightarrow> pyval list \<Rightarrow> state \<Rightarrow> error option \<times> state" where
  "emit event args st =
     (if strict (reg st) \<and> event \<notin> set (dunder_events (reg st)) then
        (Some (InvalidEvent event), st)
      else
        (let (e1, lazy1, st1) =
               (if events (reg st) event \<noteq> None then
                  (let (fs, d) = defaultdict_getitem event (events (reg st))
                   in emit_event_loop args fs [] (st\<lparr>reg := (reg st)\<lparr>events := d\<rparr>\<rparr>))
                else (None, [], st))
         in case e1 of
              Some e \<Rightarrow> (Some e, st1)
            | None \<Rightarrow>
                (let (e2, lazy2, st2) =
                       emit_all_loop event args (all_events_listener (reg st1)) lazy1 st1
                 in case e2 of
                      Some e \<Rightarrow> (Some e, st2)
                    | None \<Rightarrow> (None, emit_lazy_loop args lazy2 st2))))"

subsection \<open>Registration through an attribute\<close>

text \<open>
  \<open>events.<name>\<close> is used in two ways: \<open>@events.name\<close>, where the registrar receives the
  decorated object itself, and \<open>@events.name(lazy=...)\<close>, where the registrar receives the
  arguments of \<open>register_event\<close> and returns the decorator.
\<close>

datatype usage = Decorator callback | DecoratorWith bool callback

text \<open>
  The function \<open>register_event\<close> nested in \<open>EventRegister.__getattr__\<close>. Given one object that
  is a \<open>FunctionType\<close> it registers it with \<open>lazy = False\<close>; given anything else it returns
  \<open>wrapper\<close>, and \<open>wrapper(func)\<close> registers \<open>func\<close> with the arguments given. In the first
  use a bound method is no \<open>FunctionType\<close>: the registrar returns \<open>wrapper\<close>, which the
  \<open>@\<close> syntax binds to the decorated name, and nothing is registered.
\<close>

fun registrar :: "string \<Rightarrow> usage \<Rightarrow> state \<Rightarrow> error option \<times> state" where
  "registrar event (Decorator (Function f)) st = register_event event (Function f) False st"
| "registrar event (Decorator (BoundMethod obj f)) st = (None, st)"
| "registrar event (DecoratorWith lazy func) st = register_event event func lazy st"

text \<open>
  The method \<open>EventRegister.__getattr__(event)\<close>, together with the use made of the registrar
  it returns.
\<close>

definition EventRegister_getattr :: "string \<Rightarrow> usage \<Rightarrow> state \<Rightarrow> error option \<times> state" where
  "EventRegister_getattr event u st =
     (if event = ''__events__'' then (Some (AttributeError event), st)
      else registrar event u st)"

text \<open>
  Python calls \<open>__getattr__\<close> only when the normal lookup of the attribute fails. On a
  register the normal lookup finds the names bound in the class body of \<open>EventRegister\<close>, the
  instance attributes set by \<open>__init__\<close> (\<open>__events__\<close> among them exactly in strict mode), and
  the names every object has or a subclass binds. The latter are not in the source and are
  the parameter \<open>others\<close>.
\<close>

definition bound_names :: "EventRegister \<Rightarrow> string list" where
  "bound_names r =
     [''strict'', ''initialized'', ''__init__'', ''__getattr__'', ''register_event'', ''r'',
      ''emit'', ''events'', ''all_events_listener'']
     @ (if strict r then [''__events__''] else [])"

text \<open>
  The decorator use of \<open>events.<name>\<close>. When the normal lookup finds \<open>name\<close> the result is
  \<open>None\<close>: \<open>__getattr__\<close> is not called, the attribute found is no registrar, and what
  applying it does is not a registration through an attribute.
\<close>

definition EventRegister_attribute ::
  "string list \<Rightarrow> string \<Rightarrow> usage \<Rightarrow> state \<Rightarrow> (error option \<times> state) option" where
  "EventRegister_attribute others name u st =
     (if name \<in> set (bound_names (reg st)) \<or> name \<in> set others then None
      else Some (EventRegister_getattr name u st))"

subsection \<open>The GSignals-compatible variant\<close>

text \<open>\<open>event.replace('_', '-')\<close>.\<close>

definition replace_underscores :: "string \<Rightarrow> string" where
  "replace_underscores event = map (\<lambda>c. if c = CHR ''_'' then CHR ''-'' else c) event"

definition GEventRegister_init :: "string list option \<Rightarrow> EventRegister" where
  "GEventRegister_init evs = EventRegister_init evs"

text \<open>The method \<open>GEventRegister.__getattr__(event)\<close>, with the use of its registrar.\<close>

definition GEventRegister_getattr :: "string \<Rightarrow> usage \<Rightarrow> state \<Rightarrow> error option \<times> state" where
  "GEventRegister_getattr event u st =
     (if event = ''__events__'' then (Some (AttributeError event), st)
      else EventRegister_getattr (replace_underscores event) u st)"

text \<open>
  The decorator use of \<open>events.<name>\<close> on a \<open>GEventRegister\<close>, whose class body binds
  \<open>__init__\<close> and \<open>__getattr__\<close> only: the normal lookup finds the same names.
\<close>

definition GEventRegister_attribute ::
  "string list \<Rightarrow> string \<Rightarrow> usage \<Rightarrow> state \<Rightarrow> (error option \<times> state) option" where
  "GEventRegister_attribute others name u st =
     (if name \<in> set (bound_names (reg st)) \<or> name \<in> set others then None
      else Some (GEventRegister_getattr name u st))"

text \<open>
  \<open>GSignals\<close>: \<open>me\<close> is the identity of the emitting object, the state's register is its
  \<open>self.events\<close>, built from the class's \<open>__events__\<close> and the keys of \<open>__gsignals__\<close>.
\<close>

definition GSignals_init :: "string list \<Rightarrow> string list option \<Rightarrow> EventRegister" where
  "GSignals_init evs gsignals =
     GEventRegister_init (Some (case gsignals of None \<Rightarrow> evs | Some ks \<Rightarrow> evs @ ks))"

definition GSignals_connect ::
  "string \<Rightarrow> callback \<Rightarrow> bool \<Rightarrow> state \<Rightarrow> error option \<times> state" where
  "GSignals_connect signal callback lazy st = register_event signal callback lazy st"

definition GSignals_emit :: "nat \<Rightarrow> string \<Rightarrow> pyval list \<Rightarrow> state \<Rightarrow> error option \<times> state" where
  "GSignals_emit me signal args st = emit signal (PyObj me # args) st"

subsection \<open>Vocabulary of the statements\<close>

text \<open>
  The call an invocation of a callable with \<open>args\<close> records; the callbacks registered for an
  event name (none when the key is absent); appending calls to the log; the strict-mode
  test shared by \<open>register_event\<close> and \<open>emit\<close>; the \<open>'lazy'\<close> entry a callback carries, and the
  callbacks of a list for which it is false, respectively true; a state with no function
  attribute set and an empty log; the attributes every instance of a new-style class has in
  Python 2.7, none of them bound in \<open>events.py\<close>.
\<close>

fun call_of :: "callable \<Rightarrow> pyval list \<Rightarrow> call" where
  "call_of (Callback f) args = Call f args"
| "call_of (Partial f pre) args = Call f (pre @ args)"

definition registered :: "state \<Rightarrow> string \<Rightarrow> callback list" where
  "registered st event = (case events (reg st) event of None \<Rightarrow> [] | Some fs \<Rightarrow> fs)"

definition log :: "call list \<Rightarrow> state \<Rightarrow> state" where
  "log cs st = st\<lparr>calls := calls st @ cs\<rparr>"

definition invalid :: "state \<Rightarrow> string \<Rightarrow> bool" where
  "invalid st event \<longleftrightarrow> strict (reg st) \<and> event \<notin> set (dunder_events (reg st))"

definition lazy_of :: "state \<Rightarrow> callback \<Rightarrow> bool option" where
  "lazy_of st f = lazy_attr st (func_of f)"

definition immediate :: "state \<Rightarrow> callback list \<Rightarrow> callback list" where
  "immediate st fs = filter (\<lambda>f. lazy_of st f = Some False) fs"

definition deferred :: "state \<Rightarrow> callback list \<Rightarrow> callback list" where
  "deferred st fs = filter (\<lambda>f. lazy_of st f = Some True) fs"

definition fresh :: "EventRegister \<Rightarrow> state" where
  "fresh r = \<lparr>lazy_attr = Map.empty, reg = r, calls = []\<rparr>"

definition object_attributes :: "string list" where
  "object_attributes =
     [''__class__'', ''__delattr__'', ''__dict__'', ''__doc__'', ''__format__'',
      ''__getattribute__'', ''__hash__'', ''__module__'', ''__new__'', ''__reduce__'',
      ''__reduce_ex__'', ''__repr__'', ''__setattr__'', ''__sizeof__'', ''__str__'',
      ''__subclasshook__'', ''__weakref__'']"

section \<open>The field registry (gpyconf.Configuration)\<close>

text \<open>
  Modelled from the spec: the class \<open>Configuration\<close> and the field classes of
  \<open>gpyconf.fields\<close> are not among the sources, only the test
  \<open>examples/unittests/inheritance.py\<close> that uses them is. The definitions of this section
  follow sections 3, 4.1 and 6 of the specification.
\<close>

text \<open>
  Modelled from the spec: a field type, the narrow interface of section 6:
  \<open>validate(raw) -> value | ValidationError\<close> (\<open>None\<close> is the error) and \<open>default()\<close>.
\<close>

datatype config_error = ValidationError

record 'v field_type =
  validate :: "'v \<Rightarrow> 'v option"
  default_value :: 'v

text \<open>
  Modelled from the spec: the fields one class declares, by name, and a configuration
  instance, the ordered mapping from field name to the field (its type and current value).
\<close>

type_synonym 'v class_fields = "(string \<times> 'v field_type) list"

type_synonym 'v configuration = "(string \<times> 'v field_type \<times> 'v) list"

text \<open>
  Modelled from the spec: assignment in an ordered mapping, a same-named entry is replaced
  where it stands (``same name replaces, not duplicates''), a new name goes to the end.
\<close>

fun ordered_set :: "string \<Rightarrow> 'a \<Rightarrow> (string \<times> 'a) list \<Rightarrow> (string \<times> 'a) list" where
  "ordered_set k v [] = [(k, v)]"
| "ordered_set k v ((k', v') # kvs) =
     (if k' = k then (k, v) # kvs else (k', v') # ordered_set k v kvs)"

text \<open>
  Modelled from the spec: the \<open>fields\<close> mapping gathered from the ancestor chain,
  most-base-first, a subclass's field overriding a same-named ancestor field.
\<close>

definition collect_fields :: "'v class_fields list \<Rightarrow> (string \<times> 'v field_type) list" where
  "collect_fields chain = fold (\<lambda>(n, ft). ordered_set n ft) (concat chain) []"

text \<open>
  Modelled from the spec: construction loads each field's value from the storage and falls
  back to the default for a field absent from it (every field, when nothing was saved).
\<close>

definition Configuration_init ::
  "'v class_fields list \<Rightarrow> (string \<rightharpoonup> 'v) \<Rightarrow> 'v configuration" where
  "Configuration_init chain storage =
     map (\<lambda>(n, ft). (n, ft, case storage n of Some v \<Rightarrow> v | None \<Rightarrow> default_value ft))
       (collect_fields chain)"

text \<open>
  Modelled from the spec: \<open>config.<field_name> = v\<close> validates \<open>v\<close> against the field's type
  and stores the validated value, or fails with \<open>ValidationError\<close>. A name that is no field
  is an ordinary attribute and leaves the mapping as it is.
\<close>

definition Configuration_setattr ::
  "string \<Rightarrow> 'v \<Rightarrow> 'v configuration \<Rightarrow> config_error + 'v configuration" where
  "Configuration_setattr n raw cfg =
     (case map_of cfg n of
        None \<Rightarrow> Inr cfg
      | Some (ft, old) \<Rightarrow>
          (case validate ft raw of
             None \<Rightarrow> Inl ValidationError
           | Some v \<Rightarrow> Inr (ordered_set n (ft, v) cfg)))"

text \<open>Modelled from the spec: a sequence of assignments, stopped by the first error.\<close>

fun assign_all ::
  "(string \<times> 'v) list \<Rightarrow> 'v configuration \<Rightarrow> config_error + 'v configuration" where
  "assign_all [] cfg = Inr cfg"
| "assign_all ((n, raw) # rest) cfg =
     (case Configuration_setattr n raw cfg of
        Inl e \<Rightarrow> Inl e
      | Inr cfg' \<Rightarrow> assign_all rest cfg')"

text \<open>
  Modelled from the spec: \<open>save()\<close> writes every field's current value to the storage,
  keyed by field name (\<open>write(key, value)\<close> of the persistence backend).
\<close>

definition Configuration_save :: "'v configuration \<Rightarrow> (string \<rightharpoonup> 'v) \<Rightarrow> (string \<rightharpoonup> 'v)" where
  "Configuration_save cfg storage = fold (\<lambda>(n, ft, v) s. s(n \<mapsto> v)) cfg storage"

text \<open>The values of the fields, by name, and the declarations behind an instance.\<close>

definition field_values :: "'v configuration \<Rightarrow> (string \<times> 'v) list" where
  "field_values cfg = map (\<lambda>(n, ft, v). (n, v)) cfg"

definition declared :: "'v configuration \<Rightarrow> (string \<times> 'v field_type) list" where
  "declared cfg = map (\<lambda>(n, ft, v). (n, ft)) cfg"

text \<open>
  Modelled from the spec: the classes of the inheritance test. The scalar values are
  integers, strings and floats, a float being its 64 bits (``bit-for-bit equal''); the three
  field types accept the values of their own kind, and their defaults are chosen here.
\<close>

datatype scalar = IntV int | StrV string | FloatV "64 word"

definition IntegerField :: "scalar field_type" where
  "IntegerField = \<lparr>validate = (\<lambda>raw. case raw of IntV i \<Rightarrow> Some raw | _ \<Rightarrow> None),
                   default_value = IntV 0\<rparr>"

definition CharField :: "scalar field_type" where
  "CharField = \<lparr>validate = (\<lambda>raw. case raw of StrV s \<Rightarrow> Some raw | _ \<Rightarrow> None),
                default_value = StrV []\<rparr>"

definition FloatField :: "scalar field_type" where
  "FloatField = \<lparr>validate = (\<lambda>raw. case raw of FloatV s \<Rightarrow> Some raw | _ \<Rightarrow> None),
                 default_value = FloatV 0\<rparr>"

definition InheritedConfiguration :: "scalar class_fields list" where
  "InheritedConfiguration =
     [[(''field1_from_superclass'', IntegerField)],
      [(''field1_from_superclass2'', CharField)],
      [(''field1_from_subclass'', FloatField)]]"

section \<open>Properties of the dispatcher\<close>

subsection \<open>The loops of emit\<close>

lemma log_simps [simp]:
  "lazy_attr (log cs st) = lazy_attr st" "lazy_of (log cs st) = lazy_of st"
  "reg (log cs st) = reg st"
  "calls (log cs st) = calls st @ cs" "log [] st = st" "log cs (log ds st) = log (ds @ cs) st"
  by (simp_all add: log_def lazy_of_def fun_eq_iff)

lemma call_callable_log: "call_callable c args st = log [call_of c args] st"
  by (cases c) (simp_all add: log_def)

lemma emit_lazy_loop_log:
  "emit_lazy_loop args cs st = log (map (\<lambda>c. call_of c args) cs) st"
  by (induction cs arbitrary: st) (simp_all add: call_callable_log)

lemma emit_event_loop_log:
  "list_all (\<lambda>f. lazy_of st f \<noteq> None) fs \<Longrightarrow>
   emit_event_loop args fs lz st =
     (None, lz @ map Callback (filter (\<lambda>f. lazy_of st f = Some True) fs),
      log (map (\<lambda>f. Call f args) (filter (\<lambda>f. lazy_of st f = Some False) fs)) st)"
proof (induction fs arbitrary: lz st)
  case Nil
  then show ?case by simp
next
  case (Cons f fs)
  then obtain b where b: "lazy_of st f = Some b" by auto
  then have b': "lazy_attr st (func_of f) = Some b" by (simp add: lazy_of_def)
  from Cons.prems have rest: "list_all (\<lambda>f. lazy_of st f \<noteq> None) fs" by simp
  show ?case
  proof (cases b)
    case True
    with b b' Cons.IH [OF rest] show ?thesis by simp
  next
    case False
    have "list_all (\<lambda>g. lazy_of (log [Call f args] st) g \<noteq> None) fs"
      using rest by simp
    from Cons.IH [OF this] b b' False show ?thesis
      by (simp add: call_callable_log)
  qed
qed

lemma emit_all_loop_log:
  "emit_all_loop event args fs lz st =
     (case dropWhile (\<lambda>f. lazy_of st f = Some False) fs of
        [] \<Rightarrow> None
      | f # _ \<Rightarrow> (if lazy_of st f = None then Some (AttributeError ''lazy'') else Some TypeError),
      lz,
      log (map (\<lambda>f. Call f (PyStr event # args))
             (takeWhile (\<lambda>f. lazy_of st f = Some False) fs)) st)"
proof (induction fs arbitrary: st)
  case Nil
  then show ?case by simp
next
  case (Cons f fs)
  show ?case
  proof (cases "lazy_of st f")
    case None
    then have "lazy_attr st (func_of f) = None" by (simp add: lazy_of_def)
    with None show ?thesis by simp
  next
    case (Some b)
    then have b': "lazy_attr st (func_of f) = Some b" by (simp add: lazy_of_def)
    show ?thesis
    proof (cases b)
      case True
      with Some b' show ?thesis by simp
    next
      case False
      with Some b' Cons.IH [of "log [Call f (PyStr event # args)] st"] show ?thesis
        by (simp add: call_callable_log cong: list.case_cong)
    qed
  qed
qed


lemma emit_event_loop_error:
  "fst (emit_event_loop args fs lz st) \<noteq> Some (InvalidEvent x)"
  by (induction fs arbitrary: lz st) (simp_all split: option.splits)

lemma emit_event_loop_reg:
  "reg (snd (snd (emit_event_loop args fs lz st))) = reg st"
  by (induction fs arbitrary: lz st) (simp_all add: call_callable_log split: option.splits)

lemma emit_all_loop_error:
  "fst (emit_all_loop event args fs lz st) \<noteq> Some (InvalidEvent x)"
  by (simp add: emit_all_loop_log split: list.splits)

lemma emit_valid:
  assumes "\<not> invalid st event"
  shows "emit event args st =
     (let (e1, lazy1, st1) = emit_event_loop args (registered st event) [] st
      in case e1 of
           Some e \<Rightarrow> (Some e, st1)
         | None \<Rightarrow>
             (let (e2, lazy2, st2) =
                    emit_all_loop event args (all_events_listener (reg st)) lazy1 st1
              in case e2 of
                   Some e \<Rightarrow> (Some e, st2)
                 | None \<Rightarrow> (None, emit_lazy_loop args lazy2 st2)))"
proof (cases "events (reg st) event")
  case None
  with assms show ?thesis
    by (auto simp add: emit_def invalid_def registered_def)
next
  case (Some fs)
  have same: "st\<lparr>reg := (reg st)\<lparr>events := events (reg st)\<rparr>\<rparr> = st" by simp
  have r: "reg (snd (snd (emit_event_loop args fs [] st))) = reg st"
    by (rule emit_event_loop_reg)
  from assms Some show ?thesis
    using r by (auto simp add: emit_def invalid_def registered_def defaultdict_getitem_def
        split: prod.splits option.splits)
qed

lemma emit_invalid: "invalid st event \<Longrightarrow> emit event args st = (Some (InvalidEvent event), st)"
  by (simp add: emit_def invalid_def)

lemma emit_error_valid:
  assumes "\<not> invalid st event"
  shows "fst (emit event args st) \<noteq> Some (InvalidEvent x)"
proof -
  obtain e1 l1 s1 where a: "emit_event_loop args (registered st event) [] st = (e1, l1, s1)"
    by (cases "emit_event_loop args (registered st event) [] st") auto
  obtain e2 l2 s2 where
    b: "emit_all_loop event args (all_events_listener (reg st)) l1 s1 = (e2, l2, s2)"
    by (cases "emit_all_loop event args (all_events_listener (reg st)) l1 s1") auto
  from a have e1: "e1 \<noteq> Some (InvalidEvent x)"
    using emit_event_loop_error [of args "registered st event" "[]" st x] by simp
  from b have e2: "e2 \<noteq> Some (InvalidEvent x)"
    using emit_all_loop_error [of event args "all_events_listener (reg st)" l1 s1 x] by simp
  from a b e1 e2 show ?thesis
    by (auto simp add: emit_valid [OF assms] split: option.splits)
qed

lemma emit_run:
  assumes ok: "\<not> invalid st event"
    and attrs: "list_all (\<lambda>f. lazy_of st f \<noteq> None) (registered st event)"
    and nolazy: "list_all (\<lambda>f. lazy_of st f = Some False) (all_events_listener (reg st))"
  shows "emit event args st =
     (None, log (map (\<lambda>f. Call f args) (immediate st (registered st event))
               @ map (\<lambda>f. Call f (PyStr event # args)) (all_events_listener (reg st))
               @ map (\<lambda>f. Call f args) (deferred st (registered st event))) st)"
proof -
  have tw: "takeWhile (\<lambda>f. lazy_of st f = Some False) (all_events_listener (reg st))
              = all_events_listener (reg st)"
    using nolazy by (simp add: list_all_iff)
  have dw: "dropWhile (\<lambda>f. lazy_of st f = Some False) (all_events_listener (reg st)) = []"
    using nolazy by (simp add: list_all_iff)
  show ?thesis
    by (simp add: emit_valid [OF ok] emit_event_loop_log [OF attrs] emit_all_loop_log
        emit_lazy_loop_log tw dw immediate_def deferred_def comp_def)
qed


lemmas run_defs = fresh_def EventRegister_init_def register_event_def defaultdict_getitem_def
  registered_def invalid_def Let_def


subsection \<open>Strict mode\<close>

text \<open>
  Claim C3, as amended. On a strict dispatcher and for an event name outside \<open>__events__\<close>,
  \<open>emit\<close> raises \<open>InvalidEvent\<close> carrying that name, and so does \<open>register_event\<close> unless the
  name is \<open>'all'\<close>; for a name inside \<open>__events__\<close> neither of them raises \<open>InvalidEvent\<close>.
\<close>

theorem strict_invalid_event:
  assumes "strict (reg st)"
  shows "(event \<notin> set (dunder_events (reg st)) \<longrightarrow>
            fst (emit event args st) = Some (InvalidEvent event)
          \<and> (event \<noteq> ''all'' \<longrightarrow>
               fst (register_event event cb lz st) = Some (InvalidEvent event)))
       \<and> (event \<in> set (dunder_events (reg st)) \<longrightarrow>
            (\<forall>x. fst (emit event args st) \<noteq> Some (InvalidEvent x))
          \<and> (\<forall>x. fst (register_event event cb lz st) \<noteq> Some (InvalidEvent x)))"
proof -
  have e1: "fst (emit event args st) = Some (InvalidEvent event)"
    if "event \<notin> set (dunder_events (reg st))"
    using that assms by (simp add: emit_invalid invalid_def)
  have r1: "fst (register_event event cb lz st) = Some (InvalidEvent event)"
    if "event \<notin> set (dunder_events (reg st))" "event \<noteq> ''all''"
    using that assms by (simp add: register_event_def Let_def)
  have e2: "fst (emit event args st) \<noteq> Some (InvalidEvent x)"
    if "event \<in> set (dunder_events (reg st))" for x
    using that by (intro emit_error_valid) (simp add: invalid_def)
  have r2: "fst (register_event event cb lz st) \<noteq> Some (InvalidEvent x)"
    if "event \<in> set (dunder_events (reg st))" for x
    using that by (simp add: register_event_def Let_def defaultdict_getitem_def split: option.splits)
  from e1 r1 e2 r2 show ?thesis by blast
qed

text \<open>
  The doctest's dispatcher \<open>__events__ = ('hi', 'there')\<close>: \<open>some_undefined_event\<close> is
  rejected by both operations, \<open>hi\<close> by neither.
\<close>

theorem strict_invalid_event_witness:
  "strict (reg (fresh (EventRegister_init (Some [''hi'', ''there'']))))
   \<and> ''some_undefined_event'' \<notin> set (dunder_events (reg (fresh (EventRegister_init (Some [''hi'', ''there''])))))
   \<and> ''some_undefined_event'' \<noteq> ''all''
   \<and> fst (emit ''some_undefined_event'' [] (fresh (EventRegister_init (Some [''hi'', ''there'']))))
        = Some (InvalidEvent ''some_undefined_event'')
   \<and> fst (register_event ''some_undefined_event'' (Function 0) False
             (fresh (EventRegister_init (Some [''hi'', ''there'']))))
        = Some (InvalidEvent ''some_undefined_event'')
   \<and> ''hi'' \<in> set (dunder_events (reg (fresh (EventRegister_init (Some [''hi'', ''there''])))))
   \<and> fst (emit ''hi'' [] (fresh (EventRegister_init (Some [''hi'', ''there'']))))
        \<noteq> Some (InvalidEvent ''hi'')
   \<and> fst (register_event ''hi'' (Function 0) False (fresh (EventRegister_init (Some [''hi'', ''there'']))))
        \<noteq> Some (InvalidEvent ''hi'')"
proof -
  let ?s = "fresh (EventRegister_init (Some [''hi'', ''there'']))"
  have a: "strict (reg ?s)" by (simp add: run_defs)
  have b: "''some_undefined_event'' \<notin> set (dunder_events (reg ?s))"
    "''some_undefined_event'' \<noteq> ''all''" "''hi'' \<in> set (dunder_events (reg ?s))"
    by (simp_all add: run_defs)
  from a b strict_invalid_event [OF a, of "''some_undefined_event''" "[]" "Function 0" False]
    strict_invalid_event [OF a, of "''hi''" "[]" "Function 0" False]
  show ?thesis by blast
qed

text \<open>
  Without the exception for \<open>'all'\<close> the statement fails: the same dispatcher accepts a
  registration under \<open>'all'\<close>, a name outside its \<open>__events__\<close>, and appends the callback
  to \<open>all_events_listener\<close>.
\<close>

theorem strict_register_all_counterexample:
  "strict (reg (fresh (EventRegister_init (Some [''hi'', ''there'']))))
   \<and> ''all'' \<notin> set (dunder_events (reg (fresh (EventRegister_init (Some [''hi'', ''there''])))))
   \<and> register_event ''all'' (Function 0) False (fresh (EventRegister_init (Some [''hi'', ''there''])))
       = (None, \<lparr>lazy_attr = [0 \<mapsto> False],
                 reg = \<lparr>strict = True, dunder_events = [''hi'', ''there''],
                        events = Map.empty, all_events_listener = [Function 0]\<rparr>,
                 calls = []\<rparr>)"
  by (simp add: run_defs)

text \<open>
  Claim C10. \<open>register_event('all', ...)\<close> never raises, whatever the mode and the
  declared names: the callback joins \<open>all_events_listener\<close>. On a strict dispatcher
  \<open>emit('all', ...)\<close> raises \<open>InvalidEvent('all')\<close> when \<open>'all'\<close> is not declared, and raises no
  \<open>InvalidEvent\<close> when it is.
\<close>

theorem register_all_skips_strict_check:
  "fst (register_event ''all'' cb lz st) = None
   \<and> all_events_listener (reg (snd (register_event ''all'' cb lz st)))
       = all_events_listener (reg st) @ [cb]
   \<and> (strict (reg st) \<longrightarrow>
        (''all'' \<notin> set (dunder_events (reg st)) \<longrightarrow>
           fst (emit ''all'' args st) = Some (InvalidEvent ''all''))
      \<and> (''all'' \<in> set (dunder_events (reg st)) \<longrightarrow>
           (\<forall>x. fst (emit ''all'' args st) \<noteq> Some (InvalidEvent x))))"
proof -
  have r: "fst (register_event ''all'' cb lz st) = None"
    "all_events_listener (reg (snd (register_event ''all'' cb lz st)))
       = all_events_listener (reg st) @ [cb]"
    by (simp_all add: register_event_def Let_def)
  have e1: "fst (emit ''all'' args st) = Some (InvalidEvent ''all'')"
    if "strict (reg st)" "''all'' \<notin> set (dunder_events (reg st))"
    using that by (simp add: emit_invalid invalid_def)
  have e2: "fst (emit ''all'' args st) \<noteq> Some (InvalidEvent x)"
    if "''all'' \<in> set (dunder_events (reg st))" for x
    using that by (intro emit_error_valid) (simp add: invalid_def)
  from r e1 e2 show ?thesis by blast
qed

theorem register_all_skips_strict_check_witness:
  "strict (reg (fresh (EventRegister_init (Some [''hi'', ''there'']))))
   \<and> ''all'' \<notin> set (dunder_events (reg (fresh (EventRegister_init (Some [''hi'', ''there''])))))
   \<and> fst (register_event ''all'' (Function 0) False (fresh (EventRegister_init (Some [''hi'', ''there''])))) = None
   \<and> fst (emit ''all'' [] (fresh (EventRegister_init (Some [''hi'', ''there'']))))
        = Some (InvalidEvent ''all'')
   \<and> strict (reg (fresh (EventRegister_init (Some [''hi'', ''all'']))))
   \<and> ''all'' \<in> set (dunder_events (reg (fresh (EventRegister_init (Some [''hi'', ''all''])))))
   \<and> fst (emit ''all'' [] (fresh (EventRegister_init (Some [''hi'', ''all'']))))
        \<noteq> Some (InvalidEvent ''all'')"
proof -
  let ?s = "fresh (EventRegister_init (Some [''hi'', ''there'']))"
  let ?t = "fresh (EventRegister_init (Some [''hi'', ''all'']))"
  have a: "strict (reg ?s)" "''all'' \<notin> set (dunder_events (reg ?s))"
    by (simp_all add: run_defs)
  have b: "strict (reg ?t)" "''all'' \<in> set (dunder_events (reg ?t))"
    by (simp_all add: run_defs)
  from a b register_all_skips_strict_check [of "Function 0" False ?s "[]"]
    register_all_skips_strict_check [of "Function 0" False ?t "[]"]
  show ?thesis by blast
qed

subsection \<open>What a raised InvalidEvent leaves behind\<close>

text \<open>
  Claim C4, as amended. When \<open>emit\<close> raises \<open>InvalidEvent\<close> the whole state is as before:
  registrations, all-listeners, every \<open>'lazy'\<close> entry, and the log of invocations.
  When \<open>register_event\<close> raises \<open>InvalidEvent\<close> the registrations, the all-listeners and the
  log are as before, and one thing has changed: the \<open>'lazy'\<close> entry of the \<open>__dict__\<close> the
  passed callback uses has already been assigned, by the first statement of
  \<open>register_event\<close>. For a bound method that is the \<open>__dict__\<close> of its function, which every
  bound method of that function shares.
\<close>

theorem invalid_event_effect:
  "(fst (register_event event cb lz st) = Some (InvalidEvent x) \<longrightarrow>
      snd (register_event event cb lz st)
        = st\<lparr>lazy_attr := (lazy_attr st)(func_of cb \<mapsto> lz)\<rparr>)
   \<and> (fst (emit event args st) = Some (InvalidEvent x) \<longrightarrow> snd (emit event args st) = st)"
proof -
  have r: "snd (register_event event cb lz st)
             = st\<lparr>lazy_attr := (lazy_attr st)(func_of cb \<mapsto> lz)\<rparr>"
    if "fst (register_event event cb lz st) = Some (InvalidEvent x)"
    using that
    by (simp add: register_event_def Let_def defaultdict_getitem_def
        split: if_splits option.splits)
  have e: "snd (emit event args st) = st"
    if h: "fst (emit event args st) = Some (InvalidEvent x)"
  proof (cases "invalid st event")
    case True
    then show ?thesis by (simp add: emit_invalid)
  next
    case False
    from emit_error_valid [OF this, of args x] h show ?thesis by simp
  qed
  from r e show ?thesis by blast
qed

text \<open>
  On the doctest's strict dispatcher the method \<open>m\<close> (function \<open>0\<close>) of object \<open>1\<close> is
  registered for \<open>hi\<close> as immediate. The rejected registration of the method \<open>m\<close> of object
  \<open>2\<close> under \<open>bye\<close> with \<open>lazy=True\<close> changes the flag of the function and nothing else, and
  with it the flag the registered method of object \<open>1\<close> carries; the rejected \<open>emit('bye')\<close>
  changes nothing.
\<close>

theorem invalid_event_effect_witness:
  "fst (register_event ''bye'' (BoundMethod 2 0) True
          (snd (register_event ''hi'' (BoundMethod 1 0) False
                 (fresh (EventRegister_init (Some [''hi'', ''there'']))))))
     = Some (InvalidEvent ''bye'')
   \<and> snd (register_event ''bye'' (BoundMethod 2 0) True
          (snd (register_event ''hi'' (BoundMethod 1 0) False
                 (fresh (EventRegister_init (Some [''hi'', ''there'']))))))
     = \<lparr>lazy_attr = [0 \<mapsto> True],
        reg = \<lparr>strict = True, dunder_events = [''hi'', ''there''],
               events = [''hi'' \<mapsto> [BoundMethod 1 0]], all_events_listener = []\<rparr>,
        calls = []\<rparr>
   \<and> lazy_of (snd (register_event ''hi'' (BoundMethod 1 0) False
                 (fresh (EventRegister_init (Some [''hi'', ''there''])))))
        (BoundMethod 1 0) = Some False
   \<and> fst (emit ''bye'' []
          (snd (register_event ''hi'' (BoundMethod 1 0) False
                 (fresh (EventRegister_init (Some [''hi'', ''there'']))))))
     = Some (InvalidEvent ''bye'')
   \<and> snd (emit ''bye'' []
          (snd (register_event ''hi'' (BoundMethod 1 0) False
                 (fresh (EventRegister_init (Some [''hi'', ''there'']))))))
     = snd (register_event ''hi'' (BoundMethod 1 0) False
                 (fresh (EventRegister_init (Some [''hi'', ''there'']))))"
proof -
  let ?s = "snd (register_event ''hi'' (BoundMethod 1 0) False
                 (fresh (EventRegister_init (Some [''hi'', ''there'']))))"
  have s: "?s = \<lparr>lazy_attr = [0 \<mapsto> False],
        reg = \<lparr>strict = True, dunder_events = [''hi'', ''there''],
               events = [''hi'' \<mapsto> [BoundMethod 1 0]], all_events_listener = []\<rparr>,
        calls = []\<rparr>"
    by (simp add: run_defs)
  have a: "fst (register_event ''bye'' (BoundMethod 2 0) True ?s) = Some (InvalidEvent ''bye'')"
    unfolding s by (simp add: run_defs)
  have b: "fst (emit ''bye'' [] ?s) = Some (InvalidEvent ''bye'')"
    unfolding s by (simp add: emit_def)
  have c: "lazy_of ?s (BoundMethod 1 0) = Some False"
    unfolding s by (simp add: lazy_of_def)
  from invalid_event_effect [of "''bye''" "BoundMethod 2 0" True ?s "''bye''" "[]"] a b
  have "snd (register_event ''bye'' (BoundMethod 2 0) True ?s)
          = ?s\<lparr>lazy_attr := (lazy_attr ?s)(func_of (BoundMethod 2 0) \<mapsto> True)\<rparr>"
    and d: "snd (emit ''bye'' [] ?s) = ?s"
    by blast+
  then have e: "snd (register_event ''bye'' (BoundMethod 2 0) True ?s)
     = \<lparr>lazy_attr = [0 \<mapsto> True],
        reg = \<lparr>strict = True, dunder_events = [''hi'', ''there''],
               events = [''hi'' \<mapsto> [BoundMethod 1 0]], all_events_listener = []\<rparr>,
        calls = []\<rparr>"
    unfolding s by simp
  from a e c b d show ?thesis by (intro conjI)
qed

text \<open>
  The passed callback does not stay unchanged: a callback registered as immediate under
  \<open>hi\<close> carries \<open>lazy = True\<close> after a rejected registration under \<open>bye\<close>.
\<close>

theorem failed_register_mutates_callback_counterexample:
  "fst (register_event ''bye'' (Function 0) True
          (snd (register_event ''hi'' (Function 0) False
                 (fresh (EventRegister_init (Some [''hi'', ''there'']))))))
     = Some (InvalidEvent ''bye'')
   \<and> lazy_of (snd (register_event ''hi'' (Function 0) False
                      (fresh (EventRegister_init (Some [''hi'', ''there''])))))
        (Function 0) = Some False
   \<and> lazy_of (snd (register_event ''bye'' (Function 0) True
          (snd (register_event ''hi'' (Function 0) False
                 (fresh (EventRegister_init (Some [''hi'', ''there''])))))))
        (Function 0) = Some True"
  by (simp add: run_defs lazy_of_def)

subsection \<open>Emitting an event nobody listens to\<close>

text \<open>
  Claim C5. On a non-strict dispatcher, for an event name with no registered callback and
  with no all-listener present, \<open>emit\<close> raises nothing, invokes nothing and leaves the state,
  the \<open>defaultdict\<close> included, as it was.
\<close>

theorem emit_unregistered_noop:
  assumes "\<not> strict (reg st)" and "registered st event = []"
    and "all_events_listener (reg st) = []"
  shows "emit event args st = (None, st)"
proof -
  from assms(1) have "\<not> invalid st event" by (simp add: invalid_def)
  from emit_valid [OF this] assms(2,3) show ?thesis by simp
qed

theorem emit_unregistered_noop_witness:
  "\<not> strict (reg (snd (register_event ''start'' (Function 0) False (fresh (EventRegister_init None)))))
   \<and> registered (snd (register_event ''start'' (Function 0) False (fresh (EventRegister_init None)))) ''foo'' = []
   \<and> all_events_listener (reg (snd (register_event ''start'' (Function 0) False (fresh (EventRegister_init None))))) = []
   \<and> emit ''foo'' [] (snd (register_event ''start'' (Function 0) False (fresh (EventRegister_init None))))
       = (None, snd (register_event ''start'' (Function 0) False (fresh (EventRegister_init None))))"
proof -
  let ?st = "snd (register_event ''start'' (Function 0) False (fresh (EventRegister_init None)))"
  have a: "\<not> strict (reg ?st)" by (simp add: run_defs)
  have b: "registered ?st ''foo'' = []" by (simp add: run_defs)
  have c: "all_events_listener (reg ?st) = []" by (simp add: run_defs)
  from a b c emit_unregistered_noop [OF a b c, of "[]"] show ?thesis by blast
qed

subsection \<open>The order of the invocations\<close>

text \<open>
  When every callback registered for the event carries the \<open>'lazy'\<close> entry and no
  all-listener is lazy, \<open>emit\<close> invokes the immediate callbacks of the event, then the
  all-listeners with the event name in front, then the lazy callbacks of the event
  (lemma \<open>emit_run\<close>). When an all-listener is lazy, the second loop raises \<open>TypeError\<close> at
  the first lazy one and nothing after it is invoked:
\<close>

lemma emit_lazy_all_listener:
  assumes ok: "\<not> invalid st event"
    and attrs: "list_all (\<lambda>f. lazy_of st f \<noteq> None) (registered st event)"
    and attrs_all: "list_all (\<lambda>f. lazy_of st f \<noteq> None) (all_events_listener (reg st))"
    and lazy: "\<not> list_all (\<lambda>f. lazy_of st f = Some False) (all_events_listener (reg st))"
  shows "emit event args st =
     (Some TypeError,
      log (map (\<lambda>f. Call f args) (immediate st (registered st event))
           @ map (\<lambda>f. Call f (PyStr event # args))
               (takeWhile (\<lambda>f. lazy_of st f = Some False) (all_events_listener (reg st)))) st)"
proof -
  let ?P = "\<lambda>f. lazy_of st f = Some False"
  from lazy have "dropWhile ?P (all_events_listener (reg st)) \<noteq> []"
    by (simp add: list_all_iff)
  then obtain f fs where d: "dropWhile ?P (all_events_listener (reg st)) = f # fs"
    by (cases "dropWhile ?P (all_events_listener (reg st))") auto
  then have "f \<in> set (all_events_listener (reg st))"
    by (metis list.set_intros(1) set_dropWhileD)
  with attrs_all have "lazy_of st f \<noteq> None" by (simp add: list_all_iff)
  with d show ?thesis
    by (simp add: emit_valid [OF ok] emit_event_loop_log [OF attrs] emit_all_loop_log
        immediate_def)
qed

text \<open>
  Claim C1: \<open>emit\<close> invokes the immediate callbacks of the event, then the immediate
  all-listeners, then the lazy callbacks of the event followed by the lazy all-listeners.
  The source misses the last part. \<open>partial(event, func)\<close> puts the event name, a string,
  where the callable belongs, so the loop over the all-listeners raises \<open>TypeError\<close> on the
  first lazy one. Below, \<open>1\<close> is registered for \<open>foo\<close> as immediate, \<open>2\<close> is a lazy
  all-listener and \<open>3\<close> is registered for \<open>foo\<close> as lazy: \<open>emit('foo', 42)\<close> invokes \<open>1\<close>
  and raises, and neither \<open>3\<close> nor \<open>2\<close> is ever invoked.
\<close>

theorem emit_lazy_all_listener_TypeError:
  "fst (emit ''foo'' [PyInt 42]
         (snd (register_event ''foo'' (Function 3) True
           (snd (register_event ''all'' (Function 2) True
             (snd (register_event ''foo'' (Function 1) False (fresh (EventRegister_init None)))))))))
     = Some TypeError
   \<and> calls (snd (emit ''foo'' [PyInt 42]
         (snd (register_event ''foo'' (Function 3) True
           (snd (register_event ''all'' (Function 2) True
             (snd (register_event ''foo'' (Function 1) False (fresh (EventRegister_init None))))))))))
     = [Call (Function 1) [PyInt 42]]"
  by (simp add: emit_def run_defs)

text \<open>
  Claim C2: every all-listener, lazy or not, is invoked with the event name in front of the
  emitted arguments, the immediate ones after the immediate callbacks of the event, the
  lazy ones in the final phase. In the source the first lazy all-listener ends the
  emission with \<open>TypeError\<close>. Below the all-listeners are \<open>1\<close> (immediate), \<open>2\<close> (lazy) and
  \<open>3\<close> (immediate), in this order: \<open>emit('foo', 42)\<close> invokes \<open>1\<close> with \<open>('foo', 42)\<close> and
  raises; \<open>2\<close> is not invoked in any phase, and neither is the immediate \<open>3\<close>.
\<close>

theorem emit_all_listeners_stop_at_lazy:
  "fst (emit ''foo'' [PyInt 42]
         (snd (register_event ''all'' (Function 3) False
           (snd (register_event ''all'' (Function 2) True
             (snd (register_event ''all'' (Function 1) False (fresh (EventRegister_init None)))))))))
     = Some TypeError
   \<and> calls (snd (emit ''foo'' [PyInt 42]
         (snd (register_event ''all'' (Function 3) False
           (snd (register_event ''all'' (Function 2) True
             (snd (register_event ''all'' (Function 1) False (fresh (EventRegister_init None))))))))))
     = [Call (Function 1) [PyStr ''foo'', PyInt 42]]"
  by (simp add: emit_def run_defs)

subsection \<open>One lazy flag per function\<close>

text \<open>
  Claim C8, as amended. The dispatcher maps an event name to the ordered list of the
  callbacks registered for it, in insertion order, and keeps the callbacks registered
  under \<open>'all'\<close> in a list of their own. A registration stores no lazy flag: the flag is the
  \<open>'lazy'\<close> entry of the \<open>__dict__\<close> the callback uses, its own for a function, that of its
  function for a bound method. Every \<open>register_event\<close> overwrites it, whether accepted or not,
  for the callback passed and for every callback that uses the same \<open>__dict__\<close>; a callback
  that uses another \<open>__dict__\<close> keeps the flag it had.
\<close>

theorem register_event_effect:
  "lazy_of (snd (register_event event cb lz st)) c
     = (if func_of c = func_of cb then Some lz else lazy_of st c)
   \<and> (event \<noteq> ''all'' \<and> fst (register_event event cb lz st) = None \<longrightarrow>
        registered (snd (register_event event cb lz st)) event = registered st event @ [cb]
      \<and> (\<forall>e. e \<noteq> event \<longrightarrow> registered (snd (register_event event cb lz st)) e = registered st e)
      \<and> all_events_listener (reg (snd (register_event event cb lz st)))
          = all_events_listener (reg st))
   \<and> (event = ''all'' \<longrightarrow>
        all_events_listener (reg (snd (register_event event cb lz st)))
          = all_events_listener (reg st) @ [cb]
      \<and> events (reg (snd (register_event event cb lz st))) = events (reg st))"
  by (simp add: register_event_def registered_def lazy_of_def Let_def defaultdict_getitem_def
      split: option.splits)

text \<open>
  The method \<open>m\<close> (function \<open>0\<close>) of object \<open>1\<close> is registered for \<open>a\<close> as lazy, the function
  \<open>5\<close> for \<open>a\<close> as lazy too; then the method \<open>m\<close> of object \<open>2\<close> is registered for \<open>b\<close> as
  immediate. The registration of the first under \<open>a\<close> is immediate from then on, that of
  function \<open>5\<close> stays lazy, and the lists are in insertion order.
\<close>

theorem register_event_effect_witness:
  "''b'' \<noteq> ''all''
   \<and> fst (register_event ''b'' (BoundMethod 2 0) False
           (snd (register_event ''a'' (Function 5) True
             (snd (register_event ''a'' (BoundMethod 1 0) True
               (fresh (EventRegister_init None))))))) = None
   \<and> lazy_of (snd (register_event ''a'' (Function 5) True
             (snd (register_event ''a'' (BoundMethod 1 0) True
               (fresh (EventRegister_init None))))))
        (BoundMethod 1 0) = Some True
   \<and> lazy_of (snd (register_event ''b'' (BoundMethod 2 0) False
           (snd (register_event ''a'' (Function 5) True
             (snd (register_event ''a'' (BoundMethod 1 0) True
               (fresh (EventRegister_init None)))))))) (BoundMethod 1 0) = Some False
   \<and> lazy_of (snd (register_event ''b'' (BoundMethod 2 0) False
           (snd (register_event ''a'' (Function 5) True
             (snd (register_event ''a'' (BoundMethod 1 0) True
               (fresh (EventRegister_init None)))))))) (Function 5) = Some True
   \<and> registered (snd (register_event ''b'' (BoundMethod 2 0) False
           (snd (register_event ''a'' (Function 5) True
             (snd (register_event ''a'' (BoundMethod 1 0) True
               (fresh (EventRegister_init None)))))))) ''b'' = [BoundMethod 2 0]
   \<and> registered (snd (register_event ''b'' (BoundMethod 2 0) False
           (snd (register_event ''a'' (Function 5) True
             (snd (register_event ''a'' (BoundMethod 1 0) True
               (fresh (EventRegister_init None)))))))) ''a'' = [BoundMethod 1 0, Function 5]"
proof -
  let ?s = "snd (register_event ''a'' (Function 5) True
             (snd (register_event ''a'' (BoundMethod 1 0) True
               (fresh (EventRegister_init None)))))"
  let ?t = "snd (register_event ''b'' (BoundMethod 2 0) False ?s)"
  have a: "''b'' \<noteq> ''all''" "''a'' \<noteq> ''b''" by simp_all
  have b: "fst (register_event ''b'' (BoundMethod 2 0) False ?s) = None"
    by (simp add: run_defs)
  have c: "registered ?s ''b'' = []" "registered ?s ''a'' = [BoundMethod 1 0, Function 5]"
    by (simp_all add: run_defs)
  have d: "lazy_of ?s (BoundMethod 1 0) = Some True" "lazy_of ?s (Function 5) = Some True"
    by (simp_all add: run_defs lazy_of_def)
  have e1: "lazy_of ?t (BoundMethod 1 0) = Some False"
    using register_event_effect [of "''b''" "BoundMethod 2 0" False ?s "BoundMethod 1 0"]
    by simp
  have e2: "lazy_of ?t (Function 5) = Some True"
    using register_event_effect [of "''b''" "BoundMethod 2 0" False ?s "Function 5"] d
    by simp
  have e3: "registered ?t ''b'' = [BoundMethod 2 0]" "registered ?t ''a'' = [BoundMethod 1 0, Function 5]"
    using register_event_effect [of "''b''" "BoundMethod 2 0" False ?s "Function 5"] a b c
    by simp_all
  from a(1) b d(1) e1 e2 e3 show ?thesis by (intro conjI)
qed

text \<open>
  A later registration does change an earlier one. With \<open>0\<close> registered for \<open>a\<close> as lazy
  and \<open>1\<close> as immediate, \<open>emit('a')\<close> invokes \<open>1\<close>, then \<open>0\<close>. After \<open>0\<close> is registered for
  \<open>b\<close> as immediate, \<open>emit('a')\<close> invokes \<open>0\<close>, then \<open>1\<close>.
\<close>

theorem lazy_flag_shared_counterexample:
  "calls (snd (emit ''a'' []
      (snd (register_event ''a'' (Function 1) False
        (snd (register_event ''a'' (Function 0) True (fresh (EventRegister_init None))))))))
     = [Call (Function 1) [], Call (Function 0) []]
   \<and> calls (snd (emit ''a'' []
      (snd (register_event ''b'' (Function 0) False
        (snd (register_event ''a'' (Function 1) False
          (snd (register_event ''a'' (Function 0) True (fresh (EventRegister_init None))))))))))
     = [Call (Function 0) [], Call (Function 1) []]"
  by (simp add: emit_def run_defs)

subsection \<open>GEventRegister and GSignals\<close>

lemmas gsignals_defs = GSignals_connect_def GSignals_init_def GEventRegister_init_def

lemma replace_underscores_no_underscore: "CHR ''_'' \<notin> set (replace_underscores event)"
  by (auto simp add: replace_underscores_def)

lemma replace_underscores_not_dunder: "replace_underscores event \<noteq> ''__events__''"
proof
  assume "replace_underscores event = ''__events__''"
  then have "CHR ''_'' \<in> set (replace_underscores event)" by simp
  with replace_underscores_no_underscore show False by blast
qed

text \<open>
  The path that does convert: an attribute of a \<open>GEventRegister\<close> that the normal lookup does
  not find registers under the name with hyphens for underscores.
\<close>

lemma GEventRegister_attribute_converts:
  assumes "name \<notin> set (bound_names (reg st))" and "name \<notin> set others"
    and "name \<noteq> ''__events__''"
  shows "GEventRegister_attribute others name u st
           = Some (registrar (replace_underscores name) u st)"
  using assms replace_underscores_not_dunder [of name]
  by (simp add: GEventRegister_attribute_def GEventRegister_getattr_def
      EventRegister_getattr_def)

text \<open>
  Claim C6: on a \<open>GEventRegister\<close> every event name is converted, underscores to hyphens,
  before registration and before lookup, so that \<open>on_foo_bar\<close> and \<open>on-foo-bar\<close> address
  the same list. The class documents the conversion as automatic and the API as that of
  \<open>EventRegister\<close>, and \<open>__getattr__\<close> converts; \<open>emit\<close> and \<open>register_event\<close>, inherited as
  they are, and \<open>GSignals.connect\<close> do not. The documented pattern of the parent class fails:
  after \<open>@events.some_signal\<close> has registered function \<open>0\<close>, which is stored under
  \<open>some-signal\<close>, \<open>events.emit('some_signal')\<close> invokes nothing, and only
  \<open>emit('some-signal')\<close> reaches the callback. Likewise a callback connected with
  \<open>connect('some_signal', ...)\<close> is not reached by \<open>GSignals.emit('some-signal')\<close>.
\<close>

theorem GEventRegister_emit_not_converted:
  "GEventRegister_attribute object_attributes ''some_signal'' (Decorator (Function 0))
       (fresh (GEventRegister_init None))
     = Some (None,
         \<lparr>lazy_attr = [0 \<mapsto> False],
          reg = \<lparr>strict = False, dunder_events = [],
                 events = [''some-signal'' \<mapsto> [Function 0]], all_events_listener = []\<rparr>,
          calls = []\<rparr>)
   \<and> emit ''some_signal'' []
         \<lparr>lazy_attr = [0 \<mapsto> False],
          reg = \<lparr>strict = False, dunder_events = [],
                 events = [''some-signal'' \<mapsto> [Function 0]], all_events_listener = []\<rparr>,
          calls = []\<rparr>
     = (None,
         \<lparr>lazy_attr = [0 \<mapsto> False],
          reg = \<lparr>strict = False, dunder_events = [],
                 events = [''some-signal'' \<mapsto> [Function 0]], all_events_listener = []\<rparr>,
          calls = []\<rparr>)
   \<and> calls (snd (emit ''some-signal'' []
         \<lparr>lazy_attr = [0 \<mapsto> False],
          reg = \<lparr>strict = False, dunder_events = [],
                 events = [''some-signal'' \<mapsto> [Function 0]], all_events_listener = []\<rparr>,
          calls = []\<rparr>))
     = [Call (Function 0) []]
   \<and> calls (snd (GSignals_emit 7 ''some-signal'' []
         (snd (GSignals_connect ''some_signal'' (Function 0) False
            (fresh (GSignals_init [''some_signal'', ''some-signal''] None))))))
     = []"
  by (simp add: GEventRegister_attribute_def GEventRegister_getattr_def
      EventRegister_getattr_def bound_names_def object_attributes_def replace_underscores_def
      GSignals_emit_def gsignals_defs emit_def run_defs)

text \<open>
  Claim C7, as amended. \<open>GSignals.emit(signal, *args)\<close> puts the emitting object in front of
  the emitted arguments. A callback registered for the signal, lazy or not, is invoked with
  the emitting object first; an all-listener is invoked with the signal name first and the
  emitting object second. (Stated for a dispatcher none of whose all-listeners is lazy.)
\<close>

theorem GSignals_emit_arguments:
  assumes "\<not> invalid st signal"
    and "list_all (\<lambda>f. lazy_of st f \<noteq> None) (registered st signal)"
    and "list_all (\<lambda>f. lazy_of st f = Some False) (all_events_listener (reg st))"
  shows "GSignals_emit me signal args st =
     (None,
      log (map (\<lambda>f. Call f (PyObj me # args)) (immediate st (registered st signal))
           @ map (\<lambda>f. Call f (PyStr signal # PyObj me # args)) (all_events_listener (reg st))
           @ map (\<lambda>f. Call f (PyObj me # args)) (deferred st (registered st signal))) st)"
  unfolding GSignals_emit_def by (rule emit_run [OF assms])

theorem GSignals_emit_arguments_witness:
  "\<not> invalid (snd (GSignals_connect ''clicked'' (Function 2) True
         (snd (GSignals_connect ''clicked'' (Function 1) False
           (snd (GSignals_connect ''all'' (Function 0) False (fresh (GSignals_init [''clicked''] None)))))))) ''clicked''
   \<and> list_all (\<lambda>f. lazy_of (snd (GSignals_connect ''clicked'' (Function 2) True
         (snd (GSignals_connect ''clicked'' (Function 1) False
           (snd (GSignals_connect ''all'' (Function 0) False (fresh (GSignals_init [''clicked''] None)))))))) f \<noteq> None) [Function 1, Function 2]
   \<and> calls (snd (GSignals_emit 7 ''clicked'' [PyInt 5]
       (snd (GSignals_connect ''clicked'' (Function 2) True
         (snd (GSignals_connect ''clicked'' (Function 1) False
           (snd (GSignals_connect ''all'' (Function 0) False (fresh (GSignals_init [''clicked''] None))))))))))
     = [Call (Function 1) [PyObj 7, PyInt 5], Call (Function 0) [PyStr ''clicked'', PyObj 7, PyInt 5],
        Call (Function 2) [PyObj 7, PyInt 5]]"
proof -
  let ?st = "snd (GSignals_connect ''clicked'' (Function 2) True
         (snd (GSignals_connect ''clicked'' (Function 1) False
           (snd (GSignals_connect ''all'' (Function 0) False (fresh (GSignals_init [''clicked''] None)))))))"
  have r: "registered ?st ''clicked'' = [Function 1, Function 2]"
    "all_events_listener (reg ?st) = [Function 0]"
    by (simp_all add: gsignals_defs run_defs)
  have l: "lazy_attr ?st = [0 \<mapsto> False, 1 \<mapsto> False, 2 \<mapsto> True]"
    by (simp add: gsignals_defs run_defs)
  have c: "calls ?st = []"
    by (simp add: gsignals_defs run_defs)
  have a: "\<not> invalid ?st ''clicked''"
    by (simp add: gsignals_defs run_defs)
  have b: "list_all (\<lambda>f. lazy_of ?st f \<noteq> None) (registered ?st ''clicked'')"
    unfolding r lazy_of_def l by auto
  have d: "list_all (\<lambda>f. lazy_of ?st f = Some False) (all_events_listener (reg ?st))"
    unfolding r lazy_of_def l by simp
  have b': "list_all (\<lambda>f. lazy_of ?st f \<noteq> None) [Function 1, Function 2]"
    unfolding lazy_of_def l by auto
  have "calls (snd (GSignals_emit 7 ''clicked'' [PyInt 5] ?st))
     = [Call (Function 1) [PyObj 7, PyInt 5], Call (Function 0) [PyStr ''clicked'', PyObj 7, PyInt 5],
        Call (Function 2) [PyObj 7, PyInt 5]]"
    unfolding GSignals_emit_arguments [OF a b d] using r l c
    by (simp add: immediate_def deferred_def lazy_of_def)
  with a b' show ?thesis by (intro conjI)
qed

text \<open>
  The first argument of an all-listener is the signal name, not the emitting object:
  object \<open>7\<close> emits \<open>clicked\<close> with argument \<open>5\<close>.
\<close>

theorem GSignals_all_listener_counterexample:
  "GSignals_emit 7 ''clicked'' [PyInt 5]
     (snd (GSignals_connect ''clicked'' (Function 1) False
       (snd (GSignals_connect ''all'' (Function 0) False (fresh (GSignals_init [''clicked''] None))))))
   = (None,
      \<lparr>lazy_attr = [0 \<mapsto> False, 1 \<mapsto> False],
       reg = \<lparr>strict = True, dunder_events = [''clicked''],
              events = [''clicked'' \<mapsto> [Function 1]], all_events_listener = [Function 0]\<rparr>,
       calls = [Call (Function 1) [PyObj 7, PyInt 5], Call (Function 0) [PyStr ''clicked'', PyObj 7, PyInt 5]]\<rparr>)"
  by (simp add: GSignals_emit_def GSignals_connect_def GSignals_init_def GEventRegister_init_def
      emit_def run_defs)

section \<open>Properties of the field registry\<close>

lemma keys_ordered_set:
  "set (map fst (ordered_set k v kvs)) = insert k (set (map fst kvs))"
proof (induction kvs)
  case Nil
  then show ?case by simp
next
  case (Cons p kvs)
  obtain k' v' where p: "p = (k', v')" by (cases p)
  show ?case
  proof (cases "k' = k")
    case True
    with p show ?thesis by simp
  next
    case False
    with p Cons.IH show ?thesis by (simp add: insert_commute)
  qed
qed

lemma distinct_ordered_set:
  "distinct (map fst kvs) \<Longrightarrow> distinct (map fst (ordered_set k v kvs))"
proof (induction kvs)
  case Nil
  then show ?case by simp
next
  case (Cons p kvs)
  obtain k' v' where p: "p = (k', v')" by (cases p)
  from Cons p show ?case
    using keys_ordered_set [of k v kvs] by auto
qed

lemma distinct_fold_ordered_set:
  "distinct (map fst acc) \<Longrightarrow>
   distinct (map fst (fold (\<lambda>(n, ft). ordered_set n ft) ds acc))"
proof (induction ds arbitrary: acc)
  case Nil
  then show ?case by simp
next
  case (Cons d ds)
  obtain n ft where d: "d = (n, ft)" by (cases d)
  from Cons.prems have "distinct (map fst (ordered_set n ft acc))"
    by (rule distinct_ordered_set)
  from Cons.IH [OF this] d show ?case by simp
qed

lemma distinct_collect_fields: "distinct (map fst (collect_fields chain))"
  unfolding collect_fields_def by (rule distinct_fold_ordered_set) simp

lemma declared_init: "declared (Configuration_init chain storage) = collect_fields chain"
  by (simp add: declared_def Configuration_init_def comp_def case_prod_unfold)

lemma declared_ordered_set:
  "map_of cfg n = Some (ft, old) \<Longrightarrow> declared (ordered_set n (ft, v) cfg) = declared cfg"
  by (induction cfg) (auto simp add: declared_def)

lemma declared_setattr:
  "Configuration_setattr n raw cfg = Inr cfg' \<Longrightarrow> declared cfg' = declared cfg"
  by (auto simp add: Configuration_setattr_def declared_ordered_set
      split: option.splits prod.splits)

lemma declared_assign_all:
  "assign_all as cfg = Inr cfg' \<Longrightarrow> declared cfg' = declared cfg"
proof (induction as arbitrary: cfg)
  case Nil
  then show ?case by simp
next
  case (Cons a as)
  obtain n raw where a: "a = (n, raw)" by (cases a)
  from Cons.prems a obtain mid where
    m: "Configuration_setattr n raw cfg = Inr mid" and r: "assign_all as mid = Inr cfg'"
    by (auto split: sum.splits)
  from Cons.IH [OF r] declared_setattr [OF m] show ?case by simp
qed

lemma save_other:
  "n \<notin> fst ` set cfg \<Longrightarrow> Configuration_save cfg storage n = storage n"
  unfolding Configuration_save_def
  by (induction cfg arbitrary: storage) (auto simp add: case_prod_unfold)

lemma save_written:
  "distinct (map fst cfg) \<Longrightarrow> (n, ft, v) \<in> set cfg \<Longrightarrow>
   Configuration_save cfg storage n = Some v"
proof (induction cfg arbitrary: storage)
  case Nil
  then show ?case by simp
next
  case (Cons p cfg)
  obtain n' ft' v' where p: "p = (n', ft', v')" by (cases p)
  have step: "Configuration_save (p # cfg) storage = Configuration_save cfg (storage(n' \<mapsto> v'))"
    by (simp add: Configuration_save_def p)
  show ?case
  proof (cases "(n, ft, v) = p")
    case True
    with p Cons.prems have "n \<notin> fst ` set cfg" and "n' = n" and "v' = v" by auto
    with step save_other [of n cfg "storage(n' \<mapsto> v')"] show ?thesis by simp
  next
    case False
    with Cons.prems have "(n, ft, v) \<in> set cfg" and "distinct (map fst cfg)" by auto
    with Cons.IH step show ?thesis by simp
  qed
qed

lemma keys_declared: "map fst (declared cfg) = map fst cfg"
  by (simp add: declared_def comp_def case_prod_unfold)

lemma init_after_save:
  assumes "declared cfg = collect_fields chain"
  shows "Configuration_init chain (Configuration_save cfg storage) = cfg"
proof -
  have d: "distinct (map fst cfg)"
    using distinct_collect_fields [of chain] assms keys_declared [of cfg] by simp
  have "Configuration_init chain (Configuration_save cfg storage)
        = map (\<lambda>(n, ft, v). (n, ft, case Configuration_save cfg storage n of
                                        Some w \<Rightarrow> w | None \<Rightarrow> default_value ft)) cfg"
    by (simp add: Configuration_init_def assms [symmetric] declared_def comp_def
        case_prod_unfold cong: option.case_cong)
  also have "\<dots> = map (\<lambda>x. x) cfg"
  proof (rule map_cong [OF refl])
    fix x assume x: "x \<in> set cfg"
    obtain n ft v where e: "x = (n, ft, v)" by (cases x)
    from save_written [OF d, of n ft v storage] x e
    show "(case x of (n, ft, v) \<Rightarrow>
             (n, ft, case Configuration_save cfg storage n of
                       Some w \<Rightarrow> w | None \<Rightarrow> default_value ft)) = x"
      by simp
  qed
  finally show ?thesis by simp
qed

text \<open>
  Claim C9. For every chain of configuration classes and every sequence of accepted
  assignments to an instance, \<open>save()\<close> followed by the construction of a fresh instance of
  the same class gives back the instance: every field, inherited or not, has the value it
  had before the save, whatever the storage held before.
\<close>

theorem save_then_construct_roundtrip:
  assumes "assign_all assignments (Configuration_init chain storage) = Inr cfg"
  shows "Configuration_init chain (Configuration_save cfg saved) = cfg
     \<and> field_values (Configuration_init chain (Configuration_save cfg saved))
         = field_values cfg"
proof -
  from declared_assign_all [OF assms] have "declared cfg = collect_fields chain"
    by (simp add: declared_init)
  from init_after_save [OF this] show ?thesis by simp
qed

text \<open>
  The inheritance test: the three fields of the three-level chain are all present, are
  assigned \<open>42\<close>, \<open>'hello world'\<close> and \<open>round(math.pi, 10)\<close>, and are read back after
  \<open>save()\<close>.
\<close>

theorem save_then_construct_roundtrip_witness:
  "assign_all
           [(''field1_from_superclass'', IntV 42),
            (''field1_from_superclass2'', StrV ''hello world''),
            (''field1_from_subclass'', FloatV 0x400921FB544486E0)]
           (Configuration_init InheritedConfiguration Map.empty)
   = Inr [(''field1_from_superclass'', IntegerField, IntV 42),
            (''field1_from_superclass2'', CharField, StrV ''hello world''),
            (''field1_from_subclass'', FloatField, FloatV 0x400921FB544486E0)]
  \<and> field_values (Configuration_init InheritedConfiguration
       (Configuration_save
          [(''field1_from_superclass'', IntegerField, IntV 42),
            (''field1_from_superclass2'', CharField, StrV ''hello world''),
            (''field1_from_subclass'', FloatField, FloatV 0x400921FB544486E0)] Map.empty))
    = [(''field1_from_superclass'', IntV 42),
       (''field1_from_superclass2'', StrV ''hello world''),
       (''field1_from_subclass'', FloatV 0x400921FB544486E0)]"
proof -
  have a: "assign_all
           [(''field1_from_superclass'', IntV 42),
            (''field1_from_superclass2'', StrV ''hello world''),
            (''field1_from_subclass'', FloatV 0x400921FB544486E0)]
           (Configuration_init InheritedConfiguration Map.empty)
   = Inr [(''field1_from_superclass'', IntegerField, IntV 42),
            (''field1_from_superclass2'', CharField, StrV ''hello world''),
            (''field1_from_subclass'', FloatField, FloatV 0x400921FB544486E0)]"
    by (simp add: Configuration_init_def collect_fields_def InheritedConfiguration_def
        Configuration_setattr_def IntegerField_def CharField_def FloatField_def)
  from save_then_construct_roundtrip [OF a, of Map.empty] a show ?thesis
    by (simp add: field_values_def)
qed

end
